theory Spec2Isabelle
  imports Main "HOL-Library.AList"
begin

section \<open>JavaScript string primitives\<close>

text \<open>
  A JavaScript string is a sequence of code units. The model uses \<^typ>\<open>string\<close>, so it covers
  the code units below 256 (the Latin-1 range); each operation below is the JavaScript
  operation of the same name restricted to that range.
\<close>

text \<open>The class \<open>\s\<close> of a regular expression, which is also what \<open>trim()\<close> removes:
  tab, line feed, vertical tab, form feed, carriage return, space and no-break space.\<close>

definition is_ws :: "char \<Rightarrow> bool" where
  "is_ws c = (of_char c \<in> {9, 10, 11, 12, 13, 32, 160 :: nat})"

definition lower_char :: "char \<Rightarrow> char" where
  "lower_char c = (let n = (of_char c :: nat) in
     if (65 \<le> n \<and> n \<le> 90) \<or> (192 \<le> n \<and> n \<le> 222 \<and> n \<noteq> 215)
     then char_of (n + 32) else c)"

definition toLowerCase :: "string \<Rightarrow> string" where
  "toLowerCase s = map lower_char s"

text \<open>\<open>s.replace(/p+/g, '-')\<close> for a character class \<open>p\<close>: every maximal run of characters
  of the class becomes one hyphen.\<close>

fun replace_runs :: "(char \<Rightarrow> bool) \<Rightarrow> string \<Rightarrow> string" where
  "replace_runs p [] = []"
| "replace_runs p [c] = (if p c then [CHR ''-''] else [c])"
| "replace_runs p (c # d # cs) =
     (if p c then (if p d then replace_runs p (d # cs) else CHR ''-'' # replace_runs p (d # cs))
      else c # replace_runs p (d # cs))"

text \<open>\<open>s.trim()\<close>. The method takes no parameter: an argument passed to it is ignored.\<close>

definition trim :: "string \<Rightarrow> string" where
  "trim s = rev (dropWhile is_ws (rev (dropWhile is_ws s)))"

text \<open>\<open>s.split(/\s+/)\<close>: the pieces between the maximal runs of white space. The empty string
  gives one empty piece, and white space at either end gives an empty piece there.\<close>

fun split_ws_from :: "string \<Rightarrow> string \<Rightarrow> string list" where
  "split_ws_from cur [] = [cur]"
| "split_ws_from cur [c] = (if is_ws c then [cur, []] else [cur @ [c]])"
| "split_ws_from cur (c # d # cs) =
     (if is_ws c then (if is_ws d then split_ws_from cur (d # cs) else cur # split_ws_from [] (d # cs))
      else split_ws_from (cur @ [c]) (d # cs))"

definition split_ws :: "string \<Rightarrow> string list" where
  "split_ws s = split_ws_from [] s"

text \<open>\<open>xs.join(sep)\<close>.\<close>

fun join :: "string \<Rightarrow> string list \<Rightarrow> string" where
  "join sep [] = []"
| "join sep [x] = x"
| "join sep (x # y # ys) = x @ sep @ join sep (y # ys)"

text \<open>\<open>s.substring(0, n)\<close>.\<close>

definition substring0 :: "nat \<Rightarrow> string \<Rightarrow> string" where
  "substring0 n s = take n s"

text \<open>\<open>Math.ceil(w / 200)\<close> for a word count \<open>w\<close>.\<close>

definition ceil_div200 :: "nat \<Rightarrow> nat" where
  "ceil_div200 w = (w + 199) div 200"

text \<open>
  \<open>n + 1\<close> on a Number that holds the integer \<open>n\<close>. A Number is a double: the sum is
  exact below \<open>2^53\<close>; from there on it is rounded to the nearest double, to the one with
  the even significand at a tie. Counters start at 0 and are never negative.
\<close>

definition number_succ :: "int \<Rightarrow> int" where
  "number_succ n =
     (if n < 2 ^ 53 then n + 1
      else if n < 2 ^ 54 then (if even (n div 2) then n else n + 2)
      else n)"

section \<open>Slug derivation\<close>

text \<open>The character class \<open>[a-z0-9 -]\<close>.\<close>

definition slug_char :: "char \<Rightarrow> bool" where
  "slug_char c = (let n = (of_char c :: nat) in
     (97 \<le> n \<and> n \<le> 122) \<or> (48 \<le> n \<and> n \<le> 57) \<or> n = 32 \<or> n = 45)"

definition is_hyphen :: "char \<Rightarrow> bool" where
  "is_hyphen c = (c = CHR ''-'')"

text \<open>
  The expression of the model's slug hook and of \<open>updateArticle\<close>:
  \<^verbatim>\<open>title.toLowerCase().replace(/[^a-z0-9 -]/g, '').replace(/\s+/g, '-').replace(/-+/g, '-').trim('-')\<close>.
  The last call is \<open>trim\<close> with an argument, which JavaScript ignores: it removes
  white space, not hyphens.
\<close>

definition slugify :: "string \<Rightarrow> string" where
  "slugify t = trim (replace_runs is_hyphen (replace_runs is_ws (filter slug_char (toLowerCase t))))"

text \<open>
  The setters of the schema's \<open>slug\<close> path (\<open>lowercase\<close>, \<open>trim\<close>). They run when a slug is
  assigned to a document and when a query names one.
\<close>

definition slug_setter :: "string \<Rightarrow> string" where
  "slug_setter s = trim (toLowerCase s)"

section \<open>Data model\<close>

type_synonym oid = nat
type_synonym date = nat

datatype article_status = Draft | Published | Archived

text \<open>A legacy content block (\<open>contentBlockSchema\<close>).\<close>

record contentBlock =
  cb_type :: string
  cb_content :: string
  cb_alt :: string
  cb_order :: int

text \<open>
  The editor document (\<open>Mixed\<close>). Only \<open>blocks[].type\<close>, \<open>blocks[].data.text\<close> and
  \<open>blocks[].data.items\<close> are read; each of \<open>blocks\<close>, \<open>data\<close>, \<open>text\<close> and \<open>items\<close> may be
  absent (\<open>None\<close>). \<open>bd_other\<close> and \<open>ed_other\<close> say whether the object has further keys
  (a header's level, the document's time and version), which tells an object without
  text and items from an empty one.
\<close>

record blockData =
  bd_text :: "string option"
  bd_items :: "string list option"
  bd_other :: bool

record editorBlock =
  eb_type :: string
  eb_data :: "blockData option"

record editorData =
  ed_blocks :: "editorBlock list option"
  ed_other :: bool

text \<open>
  The fields that \<open>articleSchema\<close> declares, and the \<open>createdAt\<close> and \<open>updatedAt\<close> stamps
  that its option \<open>timestamps\<close> adds. A field without a default is an option: \<open>None\<close> is
  JavaScript's \<open>undefined\<close>, a field absent from the stored document.
\<close>

record article =
  title :: string
  slug :: "string option"
  contentBlocks :: "contentBlock list"
  editorData :: "editorData option"
  excerpt :: "string option"
  category :: "string option"
  tags :: "string list"
  status :: article_status
  author :: oid
  featuredImage :: string
  publishedAt :: "date option"
  views :: int
  likes :: int
  likedBy :: "oid list"
  readTime :: nat
  seoTitle :: "string option"
  seoDescription :: "string option"
  isFeatured :: bool
  allowComments :: bool
  createdAt :: date
  updatedAt :: date

text \<open>Of a user only the saved articles are kept.\<close>

record user =
  savedArticles :: "oid list"

text \<open>The two collections, each a list of documents keyed by \<open>_id\<close>.\<close>

record db =
  articles :: "(oid \<times> article) list"
  users :: "(oid \<times> user) list"

section \<open>The pre-save hooks of the article model\<close>

text \<open>
  A hook reads \<open>this.isModified(path)\<close>; the hooks take the list of modified paths of the
  document being saved. They run in the order in which the schema registers them.
\<close>

definition slug_hook :: "string list \<Rightarrow> article \<Rightarrow> article" where
  "slug_hook m a =
     (if ''title'' \<in> set m then a\<lparr>slug := Some (slug_setter (slugify (title a)))\<rparr> else a)"

definition publishedAt_hook :: "string list \<Rightarrow> date \<Rightarrow> article \<Rightarrow> article" where
  "publishedAt_hook m now a =
     (if ''status'' \<in> set m \<and> status a = Published \<and> publishedAt a = None
      then a\<lparr>publishedAt := Some now\<rparr> else a)"

definition is_text_block :: "contentBlock \<Rightarrow> bool" where
  "is_text_block b = (cb_type b = ''text'')"

definition is_paragraph_or_header :: "editorBlock \<Rightarrow> bool" where
  "is_paragraph_or_header b = (eb_type b = ''paragraph'' \<or> eb_type b = ''header'')"

text \<open>\<open>editorData && editorData.blocks\<close>, the empty list when either is absent.\<close>

definition editor_blocks :: "editorData option \<Rightarrow> editorBlock list" where
  "editor_blocks ed =
     (case ed of None \<Rightarrow> [] | Some d \<Rightarrow> (case ed_blocks d of None \<Rightarrow> [] | Some bs \<Rightarrow> bs))"

text \<open>\<open>block.data.text\<close> as \<open>join\<close> prints it (\<open>undefined\<close> prints as the empty string);
  \<open>None\<close> when \<open>block.data\<close> is absent, where the property access throws.\<close>

definition data_text_joined :: "editorBlock \<Rightarrow> string option" where
  "data_text_joined b =
     (case eb_data b of None \<Rightarrow> None
      | Some d \<Rightarrow> Some (case bd_text d of None \<Rightarrow> [] | Some t \<Rightarrow> t))"

fun all_some :: "'a option list \<Rightarrow> 'a list option" where
  "all_some [] = Some []"
| "all_some (None # xs) = None"
| "all_some (Some x # xs) = (case all_some xs of None \<Rightarrow> None | Some ys \<Rightarrow> Some (x # ys))"

definition hook_legacy_text :: "contentBlock list \<Rightarrow> string" where
  "hook_legacy_text cbs =
     (if cbs \<noteq> [] then join '' '' (map cb_content (filter is_text_block cbs)) else [])"

text \<open>The string whose words the read-time hook counts; \<open>None\<close> when the hook throws.\<close>

definition hook_textContent :: "contentBlock list \<Rightarrow> editorData option \<Rightarrow> string option" where
  "hook_textContent cbs ed =
     (let textContent = hook_legacy_text cbs in
      if editor_blocks ed \<noteq> [] then
        (case all_some (map data_text_joined (filter is_paragraph_or_header (editor_blocks ed))) of
           None \<Rightarrow> None
         | Some ts \<Rightarrow> Some (textContent @ '' '' @ join '' '' ts))
      else Some textContent)"

definition content_modified :: "string list \<Rightarrow> bool" where
  "content_modified m = (''contentBlocks'' \<in> set m \<or> ''editorData'' \<in> set m)"

definition readTime_hook :: "string list \<Rightarrow> article \<Rightarrow> article option" where
  "readTime_hook m a =
     (if content_modified m then
        (case hook_textContent (contentBlocks a) (editorData a) of
           None \<Rightarrow> None
         | Some textContent \<Rightarrow> Some (a\<lparr>readTime := ceil_div200 (length (split_ws textContent))\<rparr>))
      else Some a)"

text \<open>\<open>block.data && block.data.text\<close> as a condition: the text is present and not empty.\<close>

definition has_text :: "editorBlock \<Rightarrow> bool" where
  "has_text b =
     (case eb_data b of None \<Rightarrow> False
      | Some d \<Rightarrow> (case bd_text d of None \<Rightarrow> False | Some t \<Rightarrow> t \<noteq> []))"

definition has_items :: "editorBlock \<Rightarrow> bool" where
  "has_items b =
     (case eb_data b of None \<Rightarrow> False
      | Some d \<Rightarrow> (case bd_items d of None \<Rightarrow> False | Some its \<Rightarrow> its \<noteq> []))"

text \<open>The callback that the excerpt hook passes to \<open>find\<close> over the editor blocks.\<close>

definition hook_excerpt_block :: "editorBlock \<Rightarrow> bool" where
  "hook_excerpt_block b =
     (if is_paragraph_or_header b then has_text b
      else if eb_type b = ''quote'' then has_text b
      else if eb_type b = ''list'' \<and> has_items b then True
      else False)"

definition block_text :: "editorBlock \<Rightarrow> string" where
  "block_text b =
     (case eb_data b of None \<Rightarrow> []
      | Some d \<Rightarrow> (case bd_text d of None \<Rightarrow> [] | Some t \<Rightarrow> t))"

definition block_first_item :: "editorBlock \<Rightarrow> string" where
  "block_first_item b =
     (case eb_data b of None \<Rightarrow> []
      | Some d \<Rightarrow> (case bd_items d of None \<Rightarrow> [] | Some its \<Rightarrow> (case its of [] \<Rightarrow> [] | x # _ \<Rightarrow> x)))"

text \<open>The excerpt candidate of the excerpt hook (\<open>excerptText\<close>).\<close>

definition hook_excerptText :: "contentBlock list \<Rightarrow> editorData option \<Rightarrow> string" where
  "hook_excerptText cbs ed =
     (let t1 = (if cbs \<noteq> [] then
                  (case find is_text_block cbs of Some b \<Rightarrow> cb_content b | None \<Rightarrow> [])
                else [])
      in if t1 = [] \<and> editor_blocks ed \<noteq> [] then
           (case find hook_excerpt_block (editor_blocks ed) of
              Some b \<Rightarrow> (if eb_type b = ''list'' then block_first_item b else block_text b)
            | None \<Rightarrow> t1)
         else t1)"

definition excerpt_hook :: "string list \<Rightarrow> article \<Rightarrow> article" where
  "excerpt_hook m a =
     (if content_modified m then
        (let excerptText = hook_excerptText (contentBlocks a) (editorData a) in
         if excerptText \<noteq> [] then a\<lparr>excerpt := Some (substring0 200 excerptText @ ''...'')\<rparr>
         else a)
      else a)"

text \<open>The four hooks in registration order; \<open>None\<close> when one of them throws.\<close>

definition pre_save :: "string list \<Rightarrow> date \<Rightarrow> article \<Rightarrow> article option" where
  "pre_save m now a =
     map_option (excerpt_hook m) (readTime_hook m (publishedAt_hook m now (slug_hook m a)))"

section \<open>Persistence operations\<close>

datatype save_error = ValidationError | DuplicateKey | TypeError

text \<open>A controller's answer: the payload of a success, or the HTTP status of a failure.\<close>

datatype 'a response = Success 'a | Failure nat

definition validCategories :: "string list" where
  "validCategories =
     [''UXUI'', ''UX'', ''UI'', ''Design'', ''Development'', ''AI'', ''Design'', ''Daily'']"

definition validBlockTypes :: "string list" where
  "validBlockTypes = [''text'', ''image'', ''video'', ''code'']"

definition valid_block :: "contentBlock \<Rightarrow> bool" where
  "valid_block b = (cb_type b \<in> set validBlockTypes \<and> cb_content b \<noteq> [])"

definition within :: "nat \<Rightarrow> string option \<Rightarrow> bool" where
  "within n s = (case s of None \<Rightarrow> True | Some t \<Rightarrow> length t \<le> n)"

text \<open>
  The schema's validators. \<open>save\<close> runs them before the pre-save hooks, on every path of
  the document, whether the request changed it or the store held it. The category is not
  required; a validator accepts an absent value.
\<close>

definition validate_article :: "article \<Rightarrow> bool" where
  "validate_article a =
     (title a \<noteq> []
      \<and> length (title a) \<le> 200
      \<and> (case category a of None \<Rightarrow> True | Some c \<Rightarrow> c \<in> set validCategories)
      \<and> list_all valid_block (contentBlocks a)
      \<and> within 500 (excerpt a)
      \<and> within 60 (seoTitle a)
      \<and> within 160 (seoDescription a))"

definition findOne_published :: "db \<Rightarrow> oid \<Rightarrow> article option" where
  "findOne_published d i =
     (case map_of (articles d) i of
        None \<Rightarrow> None
      | Some a \<Rightarrow> if status a = Published then Some a else None)"

definition findOne_slug_published :: "db \<Rightarrow> string \<Rightarrow> (oid \<times> article) option" where
  "findOne_slug_published d s =
     find (\<lambda>(i, a). slug a = Some (slug_setter s) \<and> status a = Published) (articles d)"

definition findOne_by_author :: "db \<Rightarrow> oid \<Rightarrow> oid \<Rightarrow> article option" where
  "findOne_by_author d i uid =
     (case map_of (articles d) i of
        None \<Rightarrow> None
      | Some a \<Rightarrow> if author a = uid then Some a else None)"

definition store_article :: "oid \<Rightarrow> article \<Rightarrow> db \<Rightarrow> db" where
  "store_article i a d = d\<lparr>articles := AList.update i a (articles d)\<rparr>"

definition store_user :: "oid \<Rightarrow> user \<Rightarrow> db \<Rightarrow> db" where
  "store_user i u d = d\<lparr>users := AList.update i u (users d)\<rparr>"

text \<open>
  \<open>document.save()\<close> of a stored article: validation, the hooks, and the write. A document
  with a modified path gets the current time as \<open>updatedAt\<close>; one without is not written.
\<close>

definition save :: "string list \<Rightarrow> date \<Rightarrow> oid \<Rightarrow> article \<Rightarrow> db \<Rightarrow> save_error + (article \<times> db)" where
  "save m now i a d =
     (if \<not> validate_article a then Inl ValidationError
      else (case pre_save m now a of
              None \<Rightarrow> Inl TypeError
            | Some a' \<Rightarrow>
                if m = [] then Inr (a', d)
                else Inr (a'\<lparr>updatedAt := now\<rparr>, store_article i (a'\<lparr>updatedAt := now\<rparr>) d)))"

text \<open>
  The schema option \<open>minimize\<close> (on by default): an object without keys is left out of what
  is inserted and of what is answered. An array stays, also when it is empty.
\<close>

definition minimize_block :: "editorBlock \<Rightarrow> editorBlock" where
  "minimize_block b =
     (case eb_data b of
        None \<Rightarrow> b
      | Some d \<Rightarrow>
          if bd_text d = None \<and> bd_items d = None \<and> \<not> bd_other d then b\<lparr>eb_data := None\<rparr> else b)"

definition minimize_editorData :: "editorData option \<Rightarrow> editorData option" where
  "minimize_editorData ed =
     (case ed of
        None \<Rightarrow> None
      | Some e \<Rightarrow>
          (case ed_blocks e of
             None \<Rightarrow> if ed_other e then Some e else None
           | Some bs \<Rightarrow> Some (e\<lparr>ed_blocks := Some (map minimize_block bs)\<rparr>)))"

definition minimize_article :: "article \<Rightarrow> article" where
  "minimize_article a = a\<lparr>editorData := minimize_editorData (editorData a)\<rparr>"

section \<open>Public reads and engagement\<close>

text \<open>\<open>article.views += 1\<close> and \<open>save\<close>, on the article that the query found. The
  assignment marks the path as modified when it changes the value.\<close>

definition view_article :: "db \<Rightarrow> date \<Rightarrow> oid \<Rightarrow> article \<Rightarrow> article response \<times> db" where
  "view_article d now i a =
     (let v = number_succ (views a);
          m = (if v = views a then [] else [''views''])
      in case save m now i (a\<lparr>views := v\<rparr>) d of
           Inl e \<Rightarrow> (Failure 500, d)
         | Inr (a', d') \<Rightarrow> (Success (minimize_article a'), d'))"

definition getPublicArticle :: "db \<Rightarrow> date \<Rightarrow> string \<Rightarrow> article response \<times> db" where
  "getPublicArticle d now s =
     (case findOne_slug_published d s of
        None \<Rightarrow> (Failure 404, d)
      | Some (i, a) \<Rightarrow> view_article d now i a)"

definition getPublicArticleById :: "db \<Rightarrow> date \<Rightarrow> oid \<Rightarrow> article response \<times> db" where
  "getPublicArticleById d now i =
     (case findOne_published d i of
        None \<Rightarrow> (Failure 404, d)
      | Some a \<Rightarrow> view_article d now i a)"

text \<open>The anonymous like of the public routes: the counter alone.\<close>

definition likeArticle :: "db \<Rightarrow> date \<Rightarrow> oid \<Rightarrow> int response \<times> db" where
  "likeArticle d now i =
     (case findOne_published d i of
        None \<Rightarrow> (Failure 404, d)
      | Some a \<Rightarrow>
          (case save [''likes''] now i (a\<lparr>likes := likes a + 1\<rparr>) d of
             Inl e \<Rightarrow> (Failure 500, d)
           | Inr (a', d') \<Rightarrow> (Success (likes a'), d')))"

text \<open>The body of \<open>toggleLikeArticle\<close> on the article it found.\<close>

definition toggle_like :: "oid \<Rightarrow> article \<Rightarrow> article" where
  "toggle_like uid a =
     (if uid \<in> set (likedBy a)
      then a\<lparr>likedBy := filter (\<lambda>x. x \<noteq> uid) (likedBy a), likes := max 0 (likes a - 1)\<rparr>
      else a\<lparr>likedBy := likedBy a @ [uid], likes := likes a + 1\<rparr>)"

definition toggleLikeArticle :: "db \<Rightarrow> date \<Rightarrow> oid \<Rightarrow> oid \<Rightarrow> (int \<times> bool) response \<times> db" where
  "toggleLikeArticle d now i uid =
     (case findOne_published d i of
        None \<Rightarrow> (Failure 404, d)
      | Some a \<Rightarrow>
          (let hasLiked = (uid \<in> set (likedBy a)) in
           case save [''likedBy'', ''likes''] now i (toggle_like uid a) d of
             Inl e \<Rightarrow> (Failure 500, d)
           | Inr (a', d') \<Rightarrow> (Success (likes a', \<not> hasLiked), d')))"

text \<open>A sequence of toggles on one article, one acting user after the other.\<close>

definition toggle_sequence :: "db \<Rightarrow> date \<Rightarrow> oid \<Rightarrow> oid list \<Rightarrow> db" where
  "toggle_sequence d now i uids = fold (\<lambda>uid d'. snd (toggleLikeArticle d' now i uid)) uids d"

text \<open>\<open>saveArticle\<close> answers \<open>(saved, wasAlreadySaved)\<close>, \<open>unsaveArticle\<close> \<open>(saved, wasSaved)\<close>.
  A missing user document makes the handler throw (status 500).\<close>

definition saveArticle :: "db \<Rightarrow> oid \<Rightarrow> oid \<Rightarrow> (bool \<times> bool) response \<times> db" where
  "saveArticle d articleId uid =
     (case findOne_published d articleId of
        None \<Rightarrow> (Failure 404, d)
      | Some a \<Rightarrow>
          (case map_of (users d) uid of
             None \<Rightarrow> (Failure 500, d)
           | Some u \<Rightarrow>
               (let wasAlreadySaved = (articleId \<in> set (savedArticles u)) in
                (Success (True, wasAlreadySaved),
                 if wasAlreadySaved then d
                 else store_user uid (u\<lparr>savedArticles := savedArticles u @ [articleId]\<rparr>) d))))"

definition unsaveArticle :: "db \<Rightarrow> oid \<Rightarrow> oid \<Rightarrow> (bool \<times> bool) response \<times> db" where
  "unsaveArticle d i uid =
     (case map_of (users d) uid of
        None \<Rightarrow> (Failure 500, d)
      | Some u \<Rightarrow>
          (let wasSaved = (i \<in> set (savedArticles u)) in
           (Success (False, wasSaved),
            store_user uid (u\<lparr>savedArticles := filter (\<lambda>x. x \<noteq> i) (savedArticles u)\<rparr>) d)))"

section \<open>Lifecycle\<close>

text \<open>
  An assignment marks a path as modified when it changes the value, so the modified paths
  of \<open>publishArticle\<close> and \<open>unpublishArticle\<close> depend on the article found.
\<close>

definition publishArticle :: "db \<Rightarrow> date \<Rightarrow> oid \<Rightarrow> oid \<Rightarrow> article response \<times> db" where
  "publishArticle d now i uid =
     (case findOne_by_author d i uid of
        None \<Rightarrow> (Failure 404, d)
      | Some a \<Rightarrow>
          (let m = (if status a \<noteq> Published then [''status''] else [])
                   @ (if publishedAt a = None then [''publishedAt''] else []);
               a1 = a\<lparr>status := Published\<rparr>;
               a2 = (if publishedAt a1 = None then a1\<lparr>publishedAt := Some now\<rparr> else a1)
           in case save m now i a2 d of
                Inl e \<Rightarrow> (Failure 500, d)
              | Inr (a', d') \<Rightarrow> (Success (minimize_article a'), d')))"

definition unpublishArticle :: "db \<Rightarrow> date \<Rightarrow> oid \<Rightarrow> oid \<Rightarrow> article response \<times> db" where
  "unpublishArticle d now i uid =
     (case findOne_by_author d i uid of
        None \<Rightarrow> (Failure 404, d)
      | Some a \<Rightarrow>
          (let m = (if status a \<noteq> Draft then [''status''] else []);
               a1 = a\<lparr>status := Draft\<rparr>
           in case save m now i a1 d of
                Inl e \<Rightarrow> (Failure 500, d)
              | Inr (a', d') \<Rightarrow> (Success (minimize_article a'), d')))"

section \<open>Creating and updating\<close>

text \<open>The request body of create and update; \<open>None\<close> is a field that the body lacks.\<close>

record articleRequest =
  rq_title :: "string option"
  rq_contentBlocks :: "contentBlock list option"
  rq_editorData :: "editorData option"
  rq_category :: "string option"
  rq_tags :: "string list option"
  rq_status :: "string option"
  rq_featuredImage :: "string option"
  rq_seoTitle :: "string option"
  rq_seoDescription :: "string option"
  rq_isFeatured :: "bool option"
  rq_allowComments :: "bool option"

definition parse_status :: "string \<Rightarrow> article_status option" where
  "parse_status s =
     (if s = ''draft'' then Some Draft
      else if s = ''published'' then Some Published
      else if s = ''archived'' then Some Archived
      else None)"

text \<open>
  The category rule of \<open>createArticleValidation\<close> and \<open>updateArticleValidation\<close>. The chain
  is \<open>optional()\<close>: it is skipped when the body has no category, so the custom check
  runs only on a category that is present.
\<close>

definition category_check :: "string option \<Rightarrow> string option \<Rightarrow> bool" where
  "category_check st cat =
     (case cat of
        None \<Rightarrow> True
      | Some v \<Rightarrow>
          (if st = Some ''published'' \<and> v = [] then False
           else if v \<noteq> [] then v \<in> set validCategories
           else True))"

definition status_check :: "string option \<Rightarrow> bool" where
  "status_check st = (case st of None \<Rightarrow> True | Some s \<Rightarrow> parse_status s \<noteq> None)"

definition title_check :: "string \<Rightarrow> bool" where
  "title_check t = (1 \<le> length (trim t) \<and> length (trim t) \<le> 200)"

definition createArticleValidation :: "articleRequest \<Rightarrow> bool" where
  "createArticleValidation rq =
     (title_check (case rq_title rq of None \<Rightarrow> [] | Some t \<Rightarrow> t)
      \<and> category_check (rq_status rq) (rq_category rq)
      \<and> status_check (rq_status rq)
      \<and> within 60 (rq_seoTitle rq)
      \<and> within 160 (rq_seoDescription rq))"

definition updateArticleValidation :: "articleRequest \<Rightarrow> bool" where
  "updateArticleValidation rq =
     ((case rq_title rq of None \<Rightarrow> True | Some t \<Rightarrow> title_check t)
      \<and> category_check (rq_status rq) (rq_category rq)
      \<and> status_check (rq_status rq)
      \<and> within 60 (rq_seoTitle rq)
      \<and> within 160 (rq_seoDescription rq))"

definition given :: "string \<Rightarrow> 'a option \<Rightarrow> string list" where
  "given p v = (case v of None \<Rightarrow> [] | Some _ \<Rightarrow> [p])"

text \<open>
  The document that \<open>createArticle\<close> hands to \<open>Article.create\<close>, with the schema's defaults
  and setters applied (the validation chain has trimmed the title) and the two stamps
  that a new document gets.
\<close>

definition new_article :: "date \<Rightarrow> oid \<Rightarrow> articleRequest \<Rightarrow> article" where
  "new_article now uid rq =
     \<lparr> title = trim (case rq_title rq of None \<Rightarrow> [] | Some t \<Rightarrow> t),
       slug = None,
       contentBlocks = (case rq_contentBlocks rq of None \<Rightarrow> [] | Some bs \<Rightarrow> bs),
       editorData = rq_editorData rq,
       excerpt = None,
       category = (case rq_category rq of None \<Rightarrow> None | Some c \<Rightarrow> if c = [] then None else Some c),
       tags = map (\<lambda>t. toLowerCase (trim t)) (case rq_tags rq of None \<Rightarrow> [] | Some ts \<Rightarrow> ts),
       status = (case rq_status rq of None \<Rightarrow> Draft
                 | Some s \<Rightarrow> (case parse_status s of None \<Rightarrow> Draft | Some st \<Rightarrow> st)),
       author = uid,
       featuredImage = (case rq_featuredImage rq of None \<Rightarrow> [] | Some f \<Rightarrow> f),
       publishedAt = None,
       views = 0,
       likes = 0,
       likedBy = [],
       readTime = 0,
       seoTitle = rq_seoTitle rq,
       seoDescription = rq_seoDescription rq,
       isFeatured = (case rq_isFeatured rq of None \<Rightarrow> False | Some b \<Rightarrow> b),
       allowComments = (case rq_allowComments rq of None \<Rightarrow> True | Some b \<Rightarrow> b),
       createdAt = now,
       updatedAt = now \<rparr>"

text \<open>Every path that the new document was given counts as modified.\<close>

definition new_article_paths :: "article \<Rightarrow> string list" where
  "new_article_paths a =
     [''title'', ''tags'', ''contentBlocks'', ''status'', ''author'', ''isFeatured'', ''allowComments'']
     @ given ''category'' (category a) @ given ''editorData'' (editorData a)
     @ given ''seoTitle'' (seoTitle a) @ given ''seoDescription'' (seoDescription a)"

definition slug_taken :: "db \<Rightarrow> string option \<Rightarrow> bool" where
  "slug_taken d s = list_ex (\<lambda>(i, a). slug a = s) (articles d)"

text \<open>\<open>createArticle\<close>; \<open>newId\<close> is the identifier that the new document gets.\<close>

definition createArticle :: "db \<Rightarrow> date \<Rightarrow> oid \<Rightarrow> oid \<Rightarrow> articleRequest \<Rightarrow> article response \<times> db" where
  "createArticle d now newId uid rq =
     (if \<not> createArticleValidation rq then (Failure 400, d)
      else
        (let a = new_article now uid rq; m = new_article_paths a in
         if \<not> validate_article a then (Failure 400, d)
         else (case pre_save m now a of
                 None \<Rightarrow> (Failure 500, d)
               | Some a' \<Rightarrow>
                   if slug_taken d (slug a') \<or> map_of (articles d) newId \<noteq> None
                   then (Failure 400, d)
                   else (Success (minimize_article a'),
                         d\<lparr>articles := articles d @ [(newId, minimize_article a')]\<rparr>))))"

text \<open>
  The update document that \<open>updateArticle\<close> builds for \<open>findByIdAndUpdate\<close>. A field is
  \<open>None\<close> when the update leaves it out. \<open>ud_publishedAt\<close> is \<open>Some None\<close> where the
  code assigns \<open>undefined\<close> to the key.
\<close>

record updateData =
  ud_title :: "string option"
  ud_slug :: "string option"
  ud_contentBlocks :: "contentBlock list option"
  ud_editorData :: "editorData option"
  ud_category :: "string option"
  ud_tags :: "string list option"
  ud_status :: "string option"
  ud_publishedAt :: "date option option"
  ud_featuredImage :: "string option"
  ud_seoTitle :: "string option"
  ud_seoDescription :: "string option"
  ud_isFeatured :: "bool option"
  ud_allowComments :: "bool option"
  ud_excerpt :: "string option"
  ud_readTime :: "nat option"

text \<open>The filter of \<open>updateArticle\<close> on editor blocks: a paragraph or header whose
  \<open>data.text\<close> is a string.\<close>

definition update_text_block :: "editorBlock \<Rightarrow> bool" where
  "update_text_block b =
     (is_paragraph_or_header b
      \<and> (case eb_data b of None \<Rightarrow> False | Some d \<Rightarrow> bd_text d \<noteq> None))"

definition request_blocks :: "contentBlock list option \<Rightarrow> contentBlock list" where
  "request_blocks cbs = (case cbs of None \<Rightarrow> [] | Some bs \<Rightarrow> bs)"

definition update_excerptText :: "contentBlock list option \<Rightarrow> editorData option \<Rightarrow> string" where
  "update_excerptText cbs ed =
     (let t1 = (if request_blocks cbs \<noteq> [] then
                  (case find is_text_block (request_blocks cbs) of
                     Some b \<Rightarrow> cb_content b | None \<Rightarrow> [])
                else [])
      in if t1 = [] \<and> editor_blocks ed \<noteq> [] then
           (case find update_text_block (editor_blocks ed) of
              Some b \<Rightarrow> block_text b
            | None \<Rightarrow> t1)
         else t1)"

definition update_fullText :: "contentBlock list option \<Rightarrow> editorData option \<Rightarrow> string" where
  "update_fullText cbs ed =
     (let f1 = (if request_blocks cbs \<noteq> []
                then '' '' @ join '' '' (map cb_content (filter is_text_block (request_blocks cbs)))
                else [])
      in if editor_blocks ed \<noteq> []
         then f1 @ '' '' @ join '' '' (map block_text (filter update_text_block (editor_blocks ed)))
         else f1)"

definition update_wordCount :: "string \<Rightarrow> nat" where
  "update_wordCount fullText =
     (if trim fullText \<noteq> [] then length (split_ws (trim fullText)) else 0)"

definition update_excerpt :: "string \<Rightarrow> string" where
  "update_excerpt excerptText =
     (if excerptText \<noteq> [] then substring0 200 excerptText @ ''...'' else [])"

definition updateArticle_data :: "article \<Rightarrow> date \<Rightarrow> articleRequest \<Rightarrow> updateData" where
  "updateArticle_data a now rq =
     (let recompute = (\<not> (rq_contentBlocks rq = None \<and> rq_editorData rq = None)) in
      \<lparr> ud_title = map_option trim (rq_title rq),
        ud_slug = map_option (\<lambda>t. slugify (trim t)) (rq_title rq),
        ud_contentBlocks = rq_contentBlocks rq,
        ud_editorData = rq_editorData rq,
        ud_category = rq_category rq,
        ud_tags = rq_tags rq,
        ud_status = rq_status rq,
        ud_publishedAt =
          (if rq_status rq = Some ''draft'' then Some None
           else if rq_status rq = Some ''published'' \<and> publishedAt a = None then Some (Some now)
           else None),
        ud_featuredImage = rq_featuredImage rq,
        ud_seoTitle = rq_seoTitle rq,
        ud_seoDescription = rq_seoDescription rq,
        ud_isFeatured = rq_isFeatured rq,
        ud_allowComments = rq_allowComments rq,
        ud_excerpt =
          (if recompute
           then Some (update_excerpt (update_excerptText (rq_contentBlocks rq) (rq_editorData rq)))
           else None),
        ud_readTime =
          (if recompute
           then Some (ceil_div200 (update_wordCount (update_fullText (rq_contentBlocks rq) (rq_editorData rq))))
           else None) \<rparr>)"

section \<open>Notions used in the statements\<close>

text \<open>The payload of a successful answer.\<close>

definition payload :: "'a response \<Rightarrow> 'a option" where
  "payload r = (case r of Success x \<Rightarrow> Some x | Failure c \<Rightarrow> None)"

text \<open>The likes counter agrees with the set of users in \<open>likedBy\<close>.\<close>

definition likes_inv :: "article \<Rightarrow> bool" where
  "likes_inv a = (likes a = int (card (set (likedBy a))))"

text \<open>What one toggle request does to the article it finds: a stored article that fails
  validation stays as it is.\<close>

definition toggle_step :: "date \<Rightarrow> oid \<Rightarrow> article \<Rightarrow> article" where
  "toggle_step now u a =
     (if validate_article a then (toggle_like u a)\<lparr>updatedAt := now\<rparr> else a)"

subsection \<open>The excerpt candidate in words\<close>

text \<open>The content of the first legacy block of type text, empty when there is none.\<close>

fun first_text_content :: "contentBlock list \<Rightarrow> string" where
  "first_text_content [] = []"
| "first_text_content (b # bs) = (if cb_type b = ''text'' then cb_content b else first_text_content bs)"

text \<open>The text of the first editor block of one of the given types whose text is not
  empty; empty when there is none.\<close>

fun first_text_of_types :: "string list \<Rightarrow> editorBlock list \<Rightarrow> string" where
  "first_text_of_types ts [] = []"
| "first_text_of_types ts (b # bs) =
     (if eb_type b \<in> set ts \<and> has_text b then block_text b else first_text_of_types ts bs)"

text \<open>The first item of the first list block that has an item.\<close>

fun first_list_item :: "editorBlock list \<Rightarrow> string" where
  "first_list_item [] = []"
| "first_list_item (b # bs) =
     (if eb_type b = ''list'' \<and> has_items b then block_first_item b else first_list_item bs)"

text \<open>
  The priority chain as the specification words it: the first legacy text block; else the
  first paragraph or header with text; else the first quote with text; else the first
  list with an item; else nothing.
\<close>

definition spec_excerpt_candidate :: "contentBlock list \<Rightarrow> editorBlock list \<Rightarrow> string" where
  "spec_excerpt_candidate cbs bs =
     (if list_ex is_text_block cbs then first_text_content cbs
      else if first_text_of_types [''paragraph'', ''header''] bs \<noteq> []
        then first_text_of_types [''paragraph'', ''header''] bs
      else if first_text_of_types [''quote''] bs \<noteq> [] then first_text_of_types [''quote''] bs
      else first_list_item bs)"

text \<open>
  The chain in document order: the first legacy text block when its content is not empty;
  else the first editor block that is a paragraph, header or quote with text or a list
  with an item, whichever comes first in the document.
\<close>

fun first_excerpt_source :: "editorBlock list \<Rightarrow> string" where
  "first_excerpt_source [] = []"
| "first_excerpt_source (b # bs) =
     (if eb_type b \<in> set [''paragraph'', ''header'', ''quote''] \<and> has_text b then block_text b
      else if eb_type b = ''list'' \<and> has_items b then block_first_item b
      else first_excerpt_source bs)"

definition document_order_candidate :: "contentBlock list \<Rightarrow> editorBlock list \<Rightarrow> string" where
  "document_order_candidate cbs bs =
     (if first_text_content cbs \<noteq> [] then first_text_content cbs else first_excerpt_source bs)"

text \<open>The text of the first paragraph or header block that carries a text, which may be
  the empty text; empty when there is none.\<close>

fun first_carried_text :: "editorBlock list \<Rightarrow> string" where
  "first_carried_text [] = []"
| "first_carried_text (b # bs) =
     (if eb_type b \<in> set [''paragraph'', ''header'']
         \<and> (case eb_data b of None \<Rightarrow> False | Some d \<Rightarrow> bd_text d \<noteq> None)
      then block_text b else first_carried_text bs)"

subsection \<open>Slugs and words\<close>

text \<open>The character class \<open>[a-z0-9-]\<close>, and strings without two hyphens in a row.\<close>

definition slug_out_char :: "char \<Rightarrow> bool" where
  "slug_out_char c = (let n = (of_char c :: nat) in
     (97 \<le> n \<and> n \<le> 122) \<or> (48 \<le> n \<and> n \<le> 57) \<or> n = 45)"

fun no_double_hyphen :: "string \<Rightarrow> bool" where
  "no_double_hyphen [] = True"
| "no_double_hyphen [c] = True"
| "no_double_hyphen (c # d # cs) = (\<not> (c = CHR ''-'' \<and> d = CHR ''-'') \<and> no_double_hyphen (d # cs))"

text \<open>The number of words of a string, a word being a maximal run of characters that are
  not white space; and the number of its maximal runs of white space.\<close>

fun count_words :: "string \<Rightarrow> nat" where
  "count_words [] = 0"
| "count_words [c] = (if is_ws c then 0 else 1)"
| "count_words (c # d # cs) = (if \<not> is_ws c \<and> is_ws d then 1 else 0) + count_words (d # cs)"

fun ws_runs :: "string \<Rightarrow> nat" where
  "ws_runs [] = 0"
| "ws_runs [c] = (if is_ws c then 1 else 0)"
| "ws_runs (c # d # cs) = (if is_ws c \<and> \<not> is_ws d then 1 else 0) + ws_runs (d # cs)"

subsection \<open>Sample data\<close>

definition plain_request :: "string \<Rightarrow> articleRequest" where
  "plain_request t =
     \<lparr> rq_title = Some t, rq_contentBlocks = None, rq_editorData = None, rq_category = None,
       rq_tags = None, rq_status = None, rq_featuredImage = None, rq_seoTitle = None,
       rq_seoDescription = None, rq_isFeatured = None, rq_allowComments = None \<rparr>"

definition empty_db :: db where
  "empty_db = \<lparr> articles = [], users = [] \<rparr>"

text \<open>A published article of user 7, liked by user 7, and a draft without a category.\<close>

definition sample_published :: article where
  "sample_published =
     \<lparr> title = ''Post'', slug = Some ''post'', contentBlocks = [], editorData = None,
       excerpt = Some ''Text...'', category = Some ''AI'', tags = [], status = Published,
       author = 7, featuredImage = [], publishedAt = Some 3, views = 10, likes = 1,
       likedBy = [7], readTime = 1, seoTitle = None, seoDescription = None,
       isFeatured = False, allowComments = True, createdAt = 2, updatedAt = 4 \<rparr>"

definition sample_draft :: article where
  "sample_draft =
     \<lparr> title = ''Note'', slug = Some ''note'', contentBlocks = [], editorData = None,
       excerpt = None, category = None, tags = [], status = Draft,
       author = 7, featuredImage = [], publishedAt = None, views = 0, likes = 0,
       likedBy = [], readTime = 1, seoTitle = None, seoDescription = None,
       isFeatured = False, allowComments = True, createdAt = 1, updatedAt = 1 \<rparr>"

definition sample_db :: db where
  "sample_db =
     \<lparr> articles = [(1, sample_published), (2, sample_draft)],
       users = [(7, \<lparr> savedArticles = [1, 2] \<rparr>)] \<rparr>"

definition text_block_of :: "string \<Rightarrow> string \<Rightarrow> editorBlock" where
  "text_block_of ty t =
     \<lparr> eb_type = ty, eb_data = Some \<lparr> bd_text = Some t, bd_items = None, bd_other = False \<rparr> \<rparr>"

definition editor_doc :: "editorBlock list \<Rightarrow> editorData option" where
  "editor_doc bs = Some \<lparr> ed_blocks = Some bs, ed_other = True \<rparr>"

definition quote_then_paragraph :: "editorBlock list" where
  "quote_then_paragraph = [text_block_of ''quote'' ''Q'', text_block_of ''paragraph'' ''P'']"

definition text_content_block :: "string \<Rightarrow> contentBlock" where
  "text_content_block t = \<lparr> cb_type = ''text'', cb_content = t, cb_alt = [], cb_order = 0 \<rparr>"

text \<open>An article whose view counter has reached \<open>2^53\<close>.\<close>

definition worn_db :: db where
  "worn_db = \<lparr> articles = [(1, sample_published\<lparr>views := 2 ^ 53\<rparr>)], users = [] \<rparr>"

definition image_block :: contentBlock where
  "image_block = \<lparr> cb_type = ''image'', cb_content = ''a.png'', cb_alt = [], cb_order = 0 \<rparr>"

definition hello_request :: articleRequest where
  "hello_request = plain_request ''Hello, World!''"

section \<open>Saves that touch no derived field\<close>

text \<open>
  A save whose modified paths are among \<open>views\<close>, \<open>likes\<close> and \<open>likedBy\<close> runs the
  validators, triggers no hook and writes the document with a new \<open>updatedAt\<close>; a save
  that modified nothing runs the validators and writes nothing.
\<close>

lemma save_unmodified:
  "save [] now i a d = (if validate_article a then Inr (a, d) else Inl ValidationError)"
  by (simp add: save_def pre_save_def slug_hook_def publishedAt_hook_def
      readTime_hook_def excerpt_hook_def content_modified_def)

lemma save_views:
  "save [''views''] now i a d =
     (if validate_article a
      then Inr (a\<lparr>updatedAt := now\<rparr>, store_article i (a\<lparr>updatedAt := now\<rparr>) d)
      else Inl ValidationError)"
  by (simp add: save_def pre_save_def slug_hook_def publishedAt_hook_def
      readTime_hook_def excerpt_hook_def content_modified_def)

lemma save_likes:
  "save [''likes''] now i a d =
     (if validate_article a
      then Inr (a\<lparr>updatedAt := now\<rparr>, store_article i (a\<lparr>updatedAt := now\<rparr>) d)
      else Inl ValidationError)"
  by (simp add: save_def pre_save_def slug_hook_def publishedAt_hook_def
      readTime_hook_def excerpt_hook_def content_modified_def)

lemma save_likedBy:
  "save [''likedBy'', ''likes''] now i a d =
     (if validate_article a
      then Inr (a\<lparr>updatedAt := now\<rparr>, store_article i (a\<lparr>updatedAt := now\<rparr>) d)
      else Inl ValidationError)"
  by (simp add: save_def pre_save_def slug_hook_def publishedAt_hook_def
      readTime_hook_def excerpt_hook_def content_modified_def)

lemma map_of_store: "map_of (articles (store_article i a d)) i = Some a"
  by (simp add: store_article_def update_conv')

lemma validate_article_cong:
  assumes "title b = title a" "category b = category a" "contentBlocks b = contentBlocks a"
    "excerpt b = excerpt a" "seoTitle b = seoTitle a" "seoDescription b = seoDescription a"
  shows "validate_article b = validate_article a"
  using assms by (simp add: validate_article_def)

section \<open>Likes and the liking users\<close>

lemma card_remove_user:
  assumes "u \<in> set xs"
  shows "int (card (set (filter (\<lambda>x. x \<noteq> u) xs))) = int (card (set xs)) - 1"
proof -
  have "set (filter (\<lambda>x. x \<noteq> u) xs) = set xs - {u}"
    by auto
  moreover have "card (set xs - {u}) = card (set xs) - 1"
    using assms by simp
  moreover have "card (set xs) \<ge> 1"
    using assms by (metis List.finite_set card_gt_0_iff empty_iff less_eq_Suc_le One_nat_def)
  ultimately show ?thesis by simp
qed

lemma toggle_like_inv:
  assumes "likes_inv a"
  shows "likes_inv (toggle_like u a)"
proof (cases "u \<in> set (likedBy a)")
  case True
  have "likes (toggle_like u a) = max 0 (likes a - 1)"
    and "likedBy (toggle_like u a) = filter (\<lambda>x. x \<noteq> u) (likedBy a)"
    using True by (simp_all add: toggle_like_def)
  moreover have "max 0 (likes a - 1) = int (card (set (filter (\<lambda>x. x \<noteq> u) (likedBy a))))"
    using assms card_remove_user [OF True] by (simp add: likes_inv_def)
  ultimately show ?thesis
    by (simp only: likes_inv_def)
next
  case False
  with assms show ?thesis
    by (simp add: likes_inv_def toggle_like_def)
qed

lemma toggle_like_twice:
  assumes "likes_inv a"
  shows "likes (toggle_like u (toggle_like u a)) = likes a
       \<and> set (likedBy (toggle_like u (toggle_like u a))) = set (likedBy a)"
proof (cases "u \<in> set (likedBy a)")
  case True
  then have "int (card (set (likedBy a))) \<ge> 1"
    using card_remove_user [OF True] by linarith
  with True assms show ?thesis
    by (auto simp add: likes_inv_def toggle_like_def)
next
  case False
  with assms show ?thesis
    by (auto simp add: likes_inv_def toggle_like_def)
qed

lemma toggle_like_status: "status (toggle_like u a) = status a"
  by (simp add: toggle_like_def)

lemma toggle_like_valid: "validate_article (toggle_like u a) = validate_article a"
  by (rule validate_article_cong) (simp_all add: toggle_like_def)

lemma stamp_valid: "validate_article (a\<lparr>updatedAt := t\<rparr>) = validate_article a"
  by (rule validate_article_cong) simp_all

lemma toggle_like_stamp:
  "toggle_like u (a\<lparr>updatedAt := t\<rparr>) = (toggle_like u a)\<lparr>updatedAt := t\<rparr>"
  by (simp add: toggle_like_def)

lemma findOne_published_store:
  "status a' = Published \<Longrightarrow> findOne_published (store_article i a' d) i = Some a'"
  by (simp add: findOne_published_def store_article_def update_conv')

lemma toggleLikeArticle_step:
  assumes "findOne_published d i = Some a"
  shows "findOne_published (snd (toggleLikeArticle d now i u)) i = Some (toggle_step now u a)"
proof -
  from assms have pub: "status a = Published"
    by (auto simp add: findOne_published_def split: option.splits if_splits)
  show ?thesis
  proof (cases "validate_article a")
    case True
    with assms pub show ?thesis
      by (simp add: toggleLikeArticle_def save_likedBy toggle_step_def toggle_like_status
          toggle_like_valid findOne_published_store)
  next
    case False
    with assms show ?thesis
      by (simp add: toggleLikeArticle_def save_likedBy toggle_step_def toggle_like_valid)
  qed
qed

lemma toggle_sequence_fold:
  assumes "findOne_published d i = Some a"
  shows "findOne_published (toggle_sequence d now i us) i = Some (fold (toggle_step now) us a)"
  using assms
proof (induction us arbitrary: d a)
  case Nil
  then show ?case by (simp add: toggle_sequence_def)
next
  case (Cons u us)
  have "findOne_published (snd (toggleLikeArticle d now i u)) i = Some (toggle_step now u a)"
    using Cons.prems by (rule toggleLikeArticle_step)
  from Cons.IH [OF this] show ?case
    by (simp add: toggle_sequence_def)
qed

lemma toggle_step_inv: "likes_inv a \<Longrightarrow> likes_inv (toggle_step now u a)"
  using toggle_like_inv [of a u] by (simp add: toggle_step_def likes_inv_def)

lemma fold_toggle_step_inv: "likes_inv a \<Longrightarrow> likes_inv (fold (toggle_step now) us a)"
  by (induction us arbitrary: a) (simp_all add: toggle_step_inv)

lemma toggle_step_distinct:
  "distinct (likedBy a) \<Longrightarrow> distinct (likedBy (toggle_step now u a))"
  by (simp add: toggle_step_def toggle_like_def)

lemma fold_toggle_step_distinct:
  "distinct (likedBy a) \<Longrightarrow> distinct (likedBy (fold (toggle_step now) us a))"
  by (induction us arbitrary: a) (simp_all add: toggle_step_distinct)

lemma toggle_step_twice:
  assumes "likes_inv a"
  shows "likes (toggle_step now u (toggle_step now u a)) = likes a
       \<and> set (likedBy (toggle_step now u (toggle_step now u a))) = set (likedBy a)"
  using toggle_like_twice [OF assms, of u]
  by (simp add: toggle_step_def toggle_like_valid stamp_valid toggle_like_stamp)

text \<open>
  Claim C1. Take a published article whose likes counter equals the number of users in
  \<open>likedBy\<close>, and any sequence of authenticated toggle requests on it. After the
  sequence (so after each of its toggles) the counter still equals that number, and it
  equals the length of \<open>likedBy\<close> when the list had no user twice; and two further
  toggles by one user leave the counter and the membership of \<open>likedBy\<close> as they were.
\<close>

theorem toggle_like_count_invariant:
  assumes "findOne_published d i = Some a"
    and "likes a = int (card (set (likedBy a)))"
  shows "(\<exists>b. findOne_published (toggle_sequence d now i us) i = Some b
            \<and> likes b = int (card (set (likedBy b)))
            \<and> (distinct (likedBy a) \<longrightarrow>
                 distinct (likedBy b) \<and> likes b = int (length (likedBy b))))
       \<and> (\<exists>b c. findOne_published (toggle_sequence d now i us) i = Some b
            \<and> findOne_published (toggle_sequence d now i (us @ [u, u])) i = Some c
            \<and> likes c = likes b \<and> set (likedBy c) = set (likedBy b))"
proof -
  let ?b = "fold (toggle_step now) us a"
  have inv: "likes_inv ?b"
    using assms(2) by (intro fold_toggle_step_inv) (simp add: likes_inv_def)
  have b: "findOne_published (toggle_sequence d now i us) i = Some ?b"
    using assms(1) by (rule toggle_sequence_fold)
  have c: "findOne_published (toggle_sequence d now i (us @ [u, u])) i
             = Some (toggle_step now u (toggle_step now u ?b))"
    using toggle_sequence_fold [OF assms(1), of now "us @ [u, u]"] by simp
  have len: "distinct (likedBy a) \<longrightarrow> distinct (likedBy ?b) \<and> likes ?b = int (length (likedBy ?b))"
    using inv by (simp add: likes_inv_def fold_toggle_step_distinct distinct_card)
  from inv b c len toggle_step_twice [OF inv, of now u] show ?thesis
    by (simp add: likes_inv_def)
qed

theorem toggle_like_count_invariant_witness:
  "findOne_published sample_db 1 = Some sample_published
   \<and> likes sample_published = int (card (set (likedBy sample_published)))
   \<and> distinct (likedBy sample_published)
   \<and> (\<exists>b. findOne_published (toggle_sequence sample_db 0 1 [8, 7]) 1 = Some b
          \<and> likes b = int (card (set (likedBy b)))
          \<and> distinct (likedBy b) \<and> likes b = int (length (likedBy b)))
   \<and> (\<exists>b c. findOne_published (toggle_sequence sample_db 0 1 [8, 7]) 1 = Some b
          \<and> findOne_published (toggle_sequence sample_db 0 1 ([8, 7] @ [9, 9])) 1 = Some c
          \<and> likes c = likes b \<and> set (likedBy c) = set (likedBy b))"
proof -
  have h1: "findOne_published sample_db 1 = Some sample_published"
    by (simp add: findOne_published_def sample_db_def sample_published_def)
  have h2: "likes sample_published = int (card (set (likedBy sample_published)))"
    by (simp add: sample_published_def)
  have h3: "distinct (likedBy sample_published)"
    by (simp add: sample_published_def)
  from toggle_like_count_invariant [OF h1 h2, of 0 "[8, 7]" 9] h1 h2 h3 show ?thesis
    by simp
qed

section \<open>Publishing\<close>

lemma save_lifecycle:
  assumes "publishedAt a = Some t"
  shows "save [''status''] now i a d =
     (if validate_article a
      then Inr (a\<lparr>updatedAt := now\<rparr>, store_article i (a\<lparr>updatedAt := now\<rparr>) d)
      else Inl ValidationError)"
    and "save [''publishedAt''] now i a d =
     (if validate_article a
      then Inr (a\<lparr>updatedAt := now\<rparr>, store_article i (a\<lparr>updatedAt := now\<rparr>) d)
      else Inl ValidationError)"
    and "save [''status'', ''publishedAt''] now i a d =
     (if validate_article a
      then Inr (a\<lparr>updatedAt := now\<rparr>, store_article i (a\<lparr>updatedAt := now\<rparr>) d)
      else Inl ValidationError)"
  using assms
  by (simp_all add: save_def pre_save_def slug_hook_def publishedAt_hook_def
      readTime_hook_def excerpt_hook_def content_modified_def)

text \<open>What \<open>publishArticle\<close> does to an article that already has a publication date, and
  to one that has none.\<close>

lemma publishArticle_dated:
  assumes "findOne_by_author d i uid = Some a" and "publishedAt a = Some t"
  shows "publishArticle d now i uid =
           (if \<not> validate_article a then (Failure 500, d)
            else if status a = Published then (Success (minimize_article a), d)
            else (Success (minimize_article (a\<lparr>status := Published, updatedAt := now\<rparr>)),
                  store_article i (a\<lparr>status := Published, updatedAt := now\<rparr>) d))"
proof -
  have p: "publishedAt (a\<lparr>status := Published\<rparr>) = Some t"
    using assms(2) by simp
  have v: "validate_article (a\<lparr>status := Published\<rparr>) = validate_article a"
    by (rule validate_article_cong) simp_all
  show ?thesis
  proof (cases "status a = Published")
    case True
    then have same: "a\<lparr>status := Published\<rparr> = a"
      by simp
    have "publishArticle d now i uid =
            (case save [] now i (a\<lparr>status := Published\<rparr>) d of
               Inl e \<Rightarrow> (Failure 500, d)
             | Inr (a', d') \<Rightarrow> (Success (minimize_article a'), d'))"
      using assms True by (simp add: publishArticle_def)
    also have "\<dots> = (case save [] now i a d of
               Inl e \<Rightarrow> (Failure 500, d)
             | Inr (a', d') \<Rightarrow> (Success (minimize_article a'), d'))"
      by (simp only: same)
    finally show ?thesis
      using True by (simp add: save_unmodified)
  next
    case False
    with assms show ?thesis
      by (simp add: publishArticle_def save_lifecycle(1) [OF p] v)
  qed
qed

lemma publishArticle_undated:
  assumes "findOne_by_author d i uid = Some a" and "publishedAt a = None"
    and "a' = a\<lparr>status := Published, publishedAt := Some now, updatedAt := now\<rparr>"
  shows "publishArticle d now i uid =
           (if validate_article a then (Success (minimize_article a'), store_article i a' d)
            else (Failure 500, d))"
proof -
  have p: "publishedAt (a\<lparr>status := Published, publishedAt := Some now\<rparr>) = Some now"
    by simp
  have v: "validate_article (a\<lparr>status := Published, publishedAt := Some now\<rparr>) = validate_article a"
    by (rule validate_article_cong) simp_all
  from assms show ?thesis
    by (cases "status a = Published") (simp_all add: publishArticle_def save_lifecycle [OF p] v)
qed

text \<open>
  Claim C8. Publishing an article that is already published and has a publication date
  leaves the date as it is: after \<open>publishArticle\<close> the stored article is still
  published, carries the date it had and is the article it was. More generally a date
  that is set is never replaced, and when the publication of an article without a date
  succeeds, the stored article is published and dated with the current time.
\<close>

theorem publish_keeps_publishedAt:
  assumes "findOne_by_author d i uid = Some a"
  shows "\<exists>a'. map_of (articles (snd (publishArticle d now i uid))) i = Some a'
            \<and> (\<forall>t. status a = Published \<and> publishedAt a = Some t \<longrightarrow>
                   status a' = Published \<and> publishedAt a' = Some t \<and> a' = a)
            \<and> (\<forall>t. publishedAt a = Some t \<longrightarrow> publishedAt a' = Some t)
            \<and> (\<forall>r. publishedAt a = None \<and> fst (publishArticle d now i uid) = Success r \<longrightarrow>
                   status a' = Published \<and> publishedAt a' = Some now)"
proof -
  from assms have stored: "map_of (articles d) i = Some a"
    by (auto simp add: findOne_by_author_def split: option.splits if_splits)
  show ?thesis
  proof (cases "publishedAt a")
    case None
    define a' where "a' = a\<lparr>status := Published, publishedAt := Some now, updatedAt := now\<rparr>"
    note r = publishArticle_undated [OF assms None a'_def]
    show ?thesis
    proof (cases "validate_article a")
      case True
      with None show ?thesis
        by (simp add: r map_of_store a'_def)
    next
      case False
      with None stored show ?thesis
        by (simp add: r)
    qed
  next
    case (Some t)
    note r = publishArticle_dated [OF assms Some]
    from Some stored show ?thesis
      by (simp add: r map_of_store)
  qed
qed

theorem publish_keeps_publishedAt_witness:
  "findOne_by_author sample_db 1 7 = Some sample_published
   \<and> status sample_published = Published
   \<and> publishedAt sample_published = Some 3
   \<and> (\<exists>a'. map_of (articles (snd (publishArticle sample_db 99 1 7))) 1 = Some a'
          \<and> status a' = Published \<and> publishedAt a' = Some 3 \<and> a' = sample_published)
   \<and> findOne_by_author sample_db 2 7 = Some sample_draft
   \<and> publishedAt sample_draft = None
   \<and> payload (fst (publishArticle sample_db 99 2 7)) \<noteq> None
   \<and> (\<exists>a'. map_of (articles (snd (publishArticle sample_db 99 2 7))) 2 = Some a'
          \<and> status a' = Published \<and> publishedAt a' = Some 99)"
proof -
  have h1: "findOne_by_author sample_db 1 7 = Some sample_published"
    by (simp add: findOne_by_author_def sample_db_def sample_published_def)
  have h2: "status sample_published = Published"
    by (simp add: sample_published_def)
  have h3: "publishedAt sample_published = Some 3"
    by (simp add: sample_published_def)
  have k1: "findOne_by_author sample_db 2 7 = Some sample_draft"
    by (simp add: findOne_by_author_def sample_db_def sample_draft_def)
  have k2: "publishedAt sample_draft = None"
    by (simp add: sample_draft_def)
  have k3: "payload (fst (publishArticle sample_db 99 2 7)) \<noteq> None"
    by code_simp
  then obtain r where k4: "fst (publishArticle sample_db 99 2 7) = Success r"
    by (cases "fst (publishArticle sample_db 99 2 7)") (simp_all add: payload_def)
  from publish_keeps_publishedAt [OF h1, of 99] h2 h3
  have e1: "\<exists>a'. map_of (articles (snd (publishArticle sample_db 99 1 7))) 1 = Some a'
          \<and> status a' = Published \<and> publishedAt a' = Some 3 \<and> a' = sample_published"
    by blast
  from publish_keeps_publishedAt [OF k1, of 99] k2 k4
  have e2: "\<exists>a'. map_of (articles (snd (publishArticle sample_db 99 2 7))) 2 = Some a'
          \<and> status a' = Published \<and> publishedAt a' = Some 99"
    by blast
  from h1 h2 h3 e1 k1 k2 k3 e2 show ?thesis
    by (intro conjI)
qed

section \<open>Public reads\<close>

lemma view_article_counted:
  assumes "views a < 2 ^ 53"
    and "a' = a\<lparr>views := views a + 1, updatedAt := now\<rparr>"
  shows "view_article d now i a =
           (if validate_article a then (Success (minimize_article a'), store_article i a' d)
            else (Failure 500, d))"
proof -
  have n: "number_succ (views a) = views a + 1"
    using assms(1) by (simp add: number_succ_def)
  have v: "validate_article (a\<lparr>views := views a + 1\<rparr>) = validate_article a"
    by (rule validate_article_cong) simp_all
  show ?thesis
    by (simp add: view_article_def Let_def n save_views v assms(2))
qed

lemma view_article_frame:
  assumes "view_article d now i a = (r, d')"
  shows "users d' = users d" and "r = Failure c \<Longrightarrow> d' = d"
proof -
  let ?v = "number_succ (views a)"
  have "(r = Failure 500 \<and> d' = d) \<or> (\<exists>b. r = Success b \<and> (d' = d \<or> (\<exists>a'. d' = store_article i a' d)))"
  proof (cases "?v = views a")
    case True
    with assms show ?thesis
      by (auto simp add: view_article_def Let_def save_unmodified split: if_splits)
  next
    case False
    with assms show ?thesis
      by (auto simp add: view_article_def Let_def save_views split: if_splits)
  qed
  then show "users d' = users d" and "r = Failure c \<Longrightarrow> d' = d"
    by (auto simp add: store_article_def)
qed

lemma store_article_map:
  "map_of (articles (store_article i a d)) = (map_of (articles d))(i \<mapsto> a)"
  by (simp add: store_article_def update_conv')

text \<open>
  Claim C10, amended. A successful public fetch, by slug or by identifier, found a
  published article and leaves every user alone. When the counter of the article found
  is below \<open>2^53\<close>, the fetch stores that article with \<open>views\<close> one higher, \<open>updatedAt\<close>
  set to the current time and every other field as it was, and leaves every other
  article alone. A fetch that fails changes nothing.
\<close>

theorem public_fetch_changes_views_only:
  "(\<forall>r d'. getPublicArticle d now s = (Success r, d') \<longrightarrow>
      (\<exists>i a. findOne_slug_published d s = Some (i, a)
         \<and> users d' = users d
         \<and> (views a < 2 ^ 53 \<longrightarrow>
              map_of (articles d')
                = (map_of (articles d))(i \<mapsto> a\<lparr>views := views a + 1, updatedAt := now\<rparr>))))
   \<and> (\<forall>c d'. getPublicArticle d now s = (Failure c, d') \<longrightarrow> d' = d)
   \<and> (\<forall>r d'. getPublicArticleById d now i = (Success r, d') \<longrightarrow>
      (\<exists>a. findOne_published d i = Some a
         \<and> users d' = users d
         \<and> (views a < 2 ^ 53 \<longrightarrow>
              map_of (articles d')
                = (map_of (articles d))(i \<mapsto> a\<lparr>views := views a + 1, updatedAt := now\<rparr>))))
   \<and> (\<forall>c d'. getPublicArticleById d now i = (Failure c, d') \<longrightarrow> d' = d)"
proof (intro conjI allI impI)
  fix r d'
  assume h: "getPublicArticle d now s = (Success r, d')"
  then obtain j a where f: "findOne_slug_published d s = Some (j, a)"
    by (auto simp add: getPublicArticle_def split: option.splits)
  with h have v: "view_article d now j a = (Success r, d')"
    by (simp add: getPublicArticle_def)
  have "users d' = users d"
    using v by (rule view_article_frame(1))
  moreover have "views a < 2 ^ 53 \<longrightarrow>
              map_of (articles d')
                = (map_of (articles d))(j \<mapsto> a\<lparr>views := views a + 1, updatedAt := now\<rparr>)"
    using v by (auto simp add: view_article_counted [OF _ refl] store_article_map split: if_splits)
  ultimately show "\<exists>i a. findOne_slug_published d s = Some (i, a)
         \<and> users d' = users d
         \<and> (views a < 2 ^ 53 \<longrightarrow>
              map_of (articles d')
                = (map_of (articles d))(i \<mapsto> a\<lparr>views := views a + 1, updatedAt := now\<rparr>))"
    using f by blast
next
  fix c d'
  assume h: "getPublicArticle d now s = (Failure c, d')"
  show "d' = d"
  proof (cases "findOne_slug_published d s")
    case None
    with h show ?thesis by (simp add: getPublicArticle_def)
  next
    case (Some p)
    obtain j a where "p = (j, a)" by (cases p)
    with Some h have "view_article d now j a = (Failure c, d')"
      by (simp add: getPublicArticle_def)
    then show ?thesis by (rule view_article_frame(2)) simp
  qed
next
  fix r d'
  assume h: "getPublicArticleById d now i = (Success r, d')"
  then obtain a where f: "findOne_published d i = Some a"
    by (auto simp add: getPublicArticleById_def split: option.splits)
  with h have v: "view_article d now i a = (Success r, d')"
    by (simp add: getPublicArticleById_def)
  have "users d' = users d"
    using v by (rule view_article_frame(1))
  moreover have "views a < 2 ^ 53 \<longrightarrow>
              map_of (articles d')
                = (map_of (articles d))(i \<mapsto> a\<lparr>views := views a + 1, updatedAt := now\<rparr>)"
    using v by (auto simp add: view_article_counted [OF _ refl] store_article_map split: if_splits)
  ultimately show "\<exists>a. findOne_published d i = Some a
         \<and> users d' = users d
         \<and> (views a < 2 ^ 53 \<longrightarrow>
              map_of (articles d')
                = (map_of (articles d))(i \<mapsto> a\<lparr>views := views a + 1, updatedAt := now\<rparr>))"
    using f by blast
next
  fix c d'
  assume h: "getPublicArticleById d now i = (Failure c, d')"
  show "d' = d"
  proof (cases "findOne_published d i")
    case None
    with h show ?thesis by (simp add: getPublicArticleById_def)
  next
    case (Some a)
    with h have "view_article d now i a = (Failure c, d')"
      by (simp add: getPublicArticleById_def)
    then show ?thesis by (rule view_article_frame(2)) simp
  qed
qed

theorem public_fetch_changes_views_only_witness:
  "getPublicArticle sample_db 9 ''POST''
     = (Success (sample_published\<lparr>views := 11, updatedAt := 9\<rparr>),
        store_article 1 (sample_published\<lparr>views := 11, updatedAt := 9\<rparr>) sample_db)
   \<and> findOne_slug_published sample_db ''POST'' = Some (1, sample_published)
   \<and> views sample_published < 2 ^ 53
   \<and> map_of (articles (store_article 1 (sample_published\<lparr>views := 11, updatedAt := 9\<rparr>) sample_db))
        = (map_of (articles sample_db))
            (1 \<mapsto> sample_published\<lparr>views := views sample_published + 1, updatedAt := 9\<rparr>)
   \<and> users (store_article 1 (sample_published\<lparr>views := 11, updatedAt := 9\<rparr>) sample_db)
        = users sample_db
   \<and> getPublicArticle sample_db 9 ''note'' = (Failure 404, sample_db)
   \<and> getPublicArticleById sample_db 9 1
     = (Success (sample_published\<lparr>views := 11, updatedAt := 9\<rparr>),
        store_article 1 (sample_published\<lparr>views := 11, updatedAt := 9\<rparr>) sample_db)
   \<and> findOne_published sample_db 1 = Some sample_published
   \<and> getPublicArticleById sample_db 9 2 = (Failure 404, sample_db)"
proof -
  have s1: "getPublicArticle sample_db 9 ''POST''
     = (Success (sample_published\<lparr>views := 11, updatedAt := 9\<rparr>),
        store_article 1 (sample_published\<lparr>views := 11, updatedAt := 9\<rparr>) sample_db)"
    by code_simp
  have f1: "getPublicArticle sample_db 9 ''note'' = (Failure 404, sample_db)"
    by code_simp
  have s2: "getPublicArticleById sample_db 9 1
     = (Success (sample_published\<lparr>views := 11, updatedAt := 9\<rparr>),
        store_article 1 (sample_published\<lparr>views := 11, updatedAt := 9\<rparr>) sample_db)"
    by code_simp
  have f2: "getPublicArticleById sample_db 9 2 = (Failure 404, sample_db)"
    by code_simp
  have q1: "findOne_slug_published sample_db ''POST'' = Some (1, sample_published)"
    by code_simp
  have q2: "findOne_published sample_db 1 = Some sample_published"
    by code_simp
  have b: "views sample_published < 2 ^ 53"
    by (simp add: sample_published_def)
  note t = public_fetch_changes_views_only [of sample_db 9 "''POST''" 1]
  from t s1 q1 b
  have e1: "map_of (articles (store_article 1 (sample_published\<lparr>views := 11, updatedAt := 9\<rparr>) sample_db))
        = (map_of (articles sample_db))
            (1 \<mapsto> sample_published\<lparr>views := views sample_published + 1, updatedAt := 9\<rparr>)"
    by (metis Pair_inject option.inject)
  from t s1
  have e2: "users (store_article 1 (sample_published\<lparr>views := 11, updatedAt := 9\<rparr>) sample_db)
        = users sample_db"
    by blast
  from s1 q1 b e1 e2 f1 s2 q2 f2 show ?thesis
    by (intro conjI)
qed

text \<open>
  Claim C10 as stated fails: the fetch of article 1 at time 9 also moves its \<open>updatedAt\<close>
  from 4 to 9, in the answer and in the store; and the fetch of an article whose counter
  stands at \<open>2^53\<close> succeeds and leaves the counter where it is.
\<close>

theorem public_fetch_counterexample:
  "updatedAt sample_published = 4
   \<and> map_option updatedAt (payload (fst (getPublicArticle sample_db 9 ''post''))) = Some 9
   \<and> map_option updatedAt (map_of (articles (snd (getPublicArticle sample_db 9 ''post''))) 1) = Some 9
   \<and> map_option views (map_of (articles worn_db) 1) = Some (2 ^ 53)
   \<and> map_option views (payload (fst (getPublicArticleById worn_db 9 1))) = Some (2 ^ 53)
   \<and> snd (getPublicArticleById worn_db 9 1) = worn_db"
  by code_simp

section \<open>Engagement on articles that are not published\<close>

text \<open>
  Claim C9, amended. For an identifier that does not resolve to a published article, the
  authenticated toggle, the anonymous like and save answer 404 and leave the database as
  it is. Unsave never changes an article, and it does not look the article up: whatever
  the article's status, it answers with success, says whether the identifier was saved
  and leaves the acting user's saved articles without it.
\<close>

theorem engagement_requires_published:
  "(findOne_published d i = None \<longrightarrow>
      toggleLikeArticle d now i uid = (Failure 404, d)
      \<and> likeArticle d now i = (Failure 404, d)
      \<and> saveArticle d i uid = (Failure 404, d))
   \<and> articles (snd (unsaveArticle d i uid)) = articles d
   \<and> (\<forall>u. map_of (users d) uid = Some u \<longrightarrow>
        (\<exists>u'. fst (unsaveArticle d i uid) = Success (False, i \<in> set (savedArticles u))
           \<and> map_of (users (snd (unsaveArticle d i uid))) uid = Some u'
           \<and> set (savedArticles u') = set (savedArticles u) - {i}))"
proof (intro conjI impI allI)
  assume "findOne_published d i = None"
  then show "toggleLikeArticle d now i uid = (Failure 404, d)"
    and "likeArticle d now i = (Failure 404, d)"
    and "saveArticle d i uid = (Failure 404, d)"
    by (simp_all add: toggleLikeArticle_def likeArticle_def saveArticle_def)
next
  show "articles (snd (unsaveArticle d i uid)) = articles d"
    by (simp add: unsaveArticle_def store_user_def split: option.splits)
next
  fix u
  assume "map_of (users d) uid = Some u"
  then show "\<exists>u'. fst (unsaveArticle d i uid) = Success (False, i \<in> set (savedArticles u))
           \<and> map_of (users (snd (unsaveArticle d i uid))) uid = Some u'
           \<and> set (savedArticles u') = set (savedArticles u) - {i}"
    by (auto simp add: unsaveArticle_def store_user_def update_conv')
qed

theorem engagement_requires_published_witness:
  "findOne_published sample_db 2 = None
   \<and> map_of (users sample_db) 7 = Some \<lparr> savedArticles = [1, 2] \<rparr>
   \<and> toggleLikeArticle sample_db 0 2 7 = (Failure 404, sample_db)
   \<and> likeArticle sample_db 0 2 = (Failure 404, sample_db)
   \<and> saveArticle sample_db 2 7 = (Failure 404, sample_db)
   \<and> articles (snd (unsaveArticle sample_db 2 7)) = articles sample_db
   \<and> (\<exists>u'. fst (unsaveArticle sample_db 2 7) = Success (False, True)
          \<and> map_of (users (snd (unsaveArticle sample_db 2 7))) 7 = Some u'
          \<and> set (savedArticles u') = {1})"
proof -
  have h: "findOne_published sample_db 2 = None"
    by (simp add: findOne_published_def sample_db_def sample_draft_def)
  have k: "map_of (users sample_db) 7 = Some \<lparr> savedArticles = [1, 2] \<rparr>"
    by (simp add: sample_db_def)
  note t = engagement_requires_published [of sample_db 2 0 7]
  from t h have e: "toggleLikeArticle sample_db 0 2 7 = (Failure 404, sample_db)
      \<and> likeArticle sample_db 0 2 = (Failure 404, sample_db)
      \<and> saveArticle sample_db 2 7 = (Failure 404, sample_db)"
    by blast
  from t have a: "articles (snd (unsaveArticle sample_db 2 7)) = articles sample_db"
    by blast
  from t k have "\<exists>u'. fst (unsaveArticle sample_db 2 7)
             = Success (False, 2 \<in> set (savedArticles \<lparr> savedArticles = [1, 2] \<rparr>))
          \<and> map_of (users (snd (unsaveArticle sample_db 2 7))) 7 = Some u'
          \<and> set (savedArticles u') = set (savedArticles \<lparr> savedArticles = [1, 2] \<rparr>) - {2}"
    by blast
  then have u: "\<exists>u'. fst (unsaveArticle sample_db 2 7) = Success (False, True)
          \<and> map_of (users (snd (unsaveArticle sample_db 2 7))) 7 = Some u'
          \<and> set (savedArticles u') = {1}"
    by (simp add: insert_Diff_if)
  from h k e a u show ?thesis
    by (intro conjI) blast+
qed

text \<open>
  Claim C9 as stated fails for unsave: article 2 is a draft, so it does not resolve to a
  published article, and still \<open>unsaveArticle\<close> answers with success and removes it from
  the saved articles of user 7.
\<close>

theorem unsave_ignores_status_counterexample:
  "findOne_published sample_db 2 = None
   \<and> map_of (users sample_db) 7 = Some \<lparr> savedArticles = [1, 2] \<rparr>
   \<and> fst (unsaveArticle sample_db 2 7) = Success (False, True)
   \<and> map_of (users (snd (unsaveArticle sample_db 2 7))) 7 = Some \<lparr> savedArticles = [1] \<rparr>"
  by (simp add: findOne_published_def unsaveArticle_def store_user_def sample_db_def
      sample_draft_def)

section \<open>Excerpt candidate\<close>

lemma find_text_block:
  "(case find is_text_block cbs of Some b \<Rightarrow> cb_content b | None \<Rightarrow> []) = first_text_content cbs"
  by (induction cbs) (simp_all add: is_text_block_def)

lemma hook_excerpt_block_iff:
  "hook_excerpt_block b =
     (eb_type b \<in> set [''paragraph'', ''header'', ''quote''] \<and> has_text b
      \<or> eb_type b = ''list'' \<and> has_items b)"
  by (auto simp add: hook_excerpt_block_def is_paragraph_or_header_def)

lemma find_excerpt_block:
  "(case find hook_excerpt_block bs of
      Some b \<Rightarrow> (if eb_type b = ''list'' then block_first_item b else block_text b)
    | None \<Rightarrow> []) = first_excerpt_source bs"
proof (induction bs)
  case Nil
  then show ?case by simp
next
  case (Cons b bs)
  show ?case
  proof (cases "eb_type b \<in> set [''paragraph'', ''header'', ''quote''] \<and> has_text b")
    case True
    then have "hook_excerpt_block b" and "eb_type b \<noteq> ''list''"
      by (auto simp add: hook_excerpt_block_iff)
    with True show ?thesis by simp
  next
    case False
    then show ?thesis
      using Cons.IH by (auto simp add: hook_excerpt_block_iff)
  qed
qed

lemma hook_excerptText_document_order:
  "hook_excerptText cbs ed = document_order_candidate cbs (editor_blocks ed)"
proof -
  have t1: "(if cbs \<noteq> [] then (case find is_text_block cbs of Some b \<Rightarrow> cb_content b | None \<Rightarrow> [])
            else []) = first_text_content cbs"
    by (cases cbs) (simp_all only: find_text_block first_text_content.simps if_True if_False
        list.distinct not_False_eq_True not_True_eq_False refl)
  have "hook_excerptText cbs ed =
          (if first_text_content cbs = [] \<and> editor_blocks ed \<noteq> []
           then (case find hook_excerpt_block (editor_blocks ed) of
                   Some b \<Rightarrow> (if eb_type b = ''list'' then block_first_item b else block_text b)
                 | None \<Rightarrow> first_text_content cbs)
           else first_text_content cbs)"
    unfolding hook_excerptText_def t1 Let_def ..
  also have "\<dots> = document_order_candidate cbs (editor_blocks ed)"
    using find_excerpt_block [of "editor_blocks ed"]
    by (cases "editor_blocks ed") (auto simp add: document_order_candidate_def split: option.splits)
  finally show ?thesis .
qed

text \<open>
  Claim C5, amended, for the save path. The candidate is the content of the first legacy
  text block when that is not empty, and otherwise comes from the first editor block, in
  document order, that is a paragraph, header or quote with text or a list with an item;
  it is empty when there is none. On a document that has passed validation a legacy text
  block has content, so the first one decides whenever there is one.
\<close>

theorem excerpt_candidate_chain:
  "hook_excerptText cbs ed = document_order_candidate cbs (editor_blocks ed)
   \<and> (list_all valid_block cbs \<and> list_ex is_text_block cbs \<longrightarrow>
        first_text_content cbs \<noteq> [] \<and> hook_excerptText cbs ed = first_text_content cbs)"
proof -
  have "list_all valid_block cbs \<Longrightarrow> list_ex is_text_block cbs \<Longrightarrow> first_text_content cbs \<noteq> []"
    by (induction cbs) (auto simp add: valid_block_def is_text_block_def)
  then show ?thesis
    by (auto simp add: hook_excerptText_document_order document_order_candidate_def)
qed

theorem excerpt_candidate_chain_witness:
  "list_all valid_block [text_content_block ''Hi'']
   \<and> list_ex is_text_block [text_content_block ''Hi'']
   \<and> hook_excerptText [text_content_block ''Hi''] (editor_doc quote_then_paragraph) = ''Hi''
   \<and> hook_excerptText [] (editor_doc quote_then_paragraph)
       = document_order_candidate [] (editor_blocks (editor_doc quote_then_paragraph))
   \<and> document_order_candidate [] (editor_blocks (editor_doc quote_then_paragraph)) = ''Q''"
proof -
  have v: "list_all valid_block [text_content_block ''Hi'']"
    by code_simp
  have e: "list_ex is_text_block [text_content_block ''Hi'']"
    by code_simp
  have f: "first_text_content [text_content_block ''Hi''] = ''Hi''"
    by code_simp
  have q: "document_order_candidate [] (editor_blocks (editor_doc quote_then_paragraph)) = ''Q''"
    by code_simp
  from excerpt_candidate_chain [of "[text_content_block ''Hi'']" "editor_doc quote_then_paragraph"] v e
  have "hook_excerptText [text_content_block ''Hi''] (editor_doc quote_then_paragraph)
          = first_text_content [text_content_block ''Hi'']"
    by blast
  then have h: "hook_excerptText [text_content_block ''Hi''] (editor_doc quote_then_paragraph) = ''Hi''"
    by (simp only: f)
  from excerpt_candidate_chain [of "[]" "editor_doc quote_then_paragraph"]
  have d: "hook_excerptText [] (editor_doc quote_then_paragraph)
       = document_order_candidate [] (editor_blocks (editor_doc quote_then_paragraph))"
    by blast
  from v e h d q show ?thesis
    by (intro conjI)
qed

text \<open>
  Claim C5 as stated fails on the save path: for a quote followed by a paragraph the hook
  takes the quote, the first of the two in the document, where the priority chain takes
  the paragraph.
\<close>

theorem priority_chain_counterexample:
  "hook_excerptText [] (editor_doc quote_then_paragraph) = ''Q''
   \<and> spec_excerpt_candidate [] quote_then_paragraph = ''P''"
  by code_simp

section \<open>The excerpt candidate on the update path\<close>

text \<open>
  \<open>updateArticle\<close> computes its candidate from the request body alone. After the first
  legacy text block it reads paragraph and header blocks only, and it takes the first
  one that carries a text, whether the text is empty or not.
\<close>

lemma find_update_block:
  "(case find update_text_block bs of Some b \<Rightarrow> block_text b | None \<Rightarrow> []) = first_carried_text bs"
  by (induction bs) (simp_all add: update_text_block_def is_paragraph_or_header_def)

lemma first_carried_text_nonempty:
  "first_carried_text bs \<noteq> [] \<Longrightarrow>
     first_carried_text bs = first_text_of_types [''paragraph'', ''header''] bs"
proof (induction bs)
  case Nil
  then show ?case by simp
next
  case (Cons b bs)
  show ?case
  proof (cases "eb_type b \<in> set [''paragraph'', ''header'']
         \<and> (case eb_data b of None \<Rightarrow> False | Some d \<Rightarrow> bd_text d \<noteq> None)")
    case True
    with Cons.prems have "block_text b \<noteq> []"
      by simp
    with True have "has_text b"
      by (auto simp add: has_text_def block_text_def split: option.splits)
    with True show ?thesis by simp
  next
    case False
    then have c: "first_carried_text (b # bs) = first_carried_text bs"
      by (simp only: first_carried_text.simps if_False)
    from False have "\<not> (eb_type b \<in> set [''paragraph'', ''header''] \<and> has_text b)"
      by (auto simp add: has_text_def split: option.splits)
    then have t: "first_text_of_types [''paragraph'', ''header''] (b # bs)
                    = first_text_of_types [''paragraph'', ''header''] bs"
      by (simp only: first_text_of_types.simps if_False)
    from Cons.prems c have "first_carried_text bs \<noteq> []"
      by simp
    then have "first_carried_text bs = first_text_of_types [''paragraph'', ''header''] bs"
      by (rule Cons.IH)
    with c t show ?thesis by simp
  qed
qed

lemma update_excerptText_eq:
  "update_excerptText cbs ed =
     (if first_text_content (request_blocks cbs) \<noteq> [] then first_text_content (request_blocks cbs)
      else first_carried_text (editor_blocks ed))"
proof -
  have t1: "(if request_blocks cbs \<noteq> []
             then (case find is_text_block (request_blocks cbs) of
                     Some b \<Rightarrow> cb_content b | None \<Rightarrow> [])
             else []) = first_text_content (request_blocks cbs)"
    by (cases "request_blocks cbs") (simp_all only: find_text_block first_text_content.simps
        if_True if_False list.distinct not_False_eq_True not_True_eq_False refl)
  have "update_excerptText cbs ed =
          (if first_text_content (request_blocks cbs) = [] \<and> editor_blocks ed \<noteq> []
           then (case find update_text_block (editor_blocks ed) of
                   Some b \<Rightarrow> block_text b
                 | None \<Rightarrow> first_text_content (request_blocks cbs))
           else first_text_content (request_blocks cbs))"
    unfolding update_excerptText_def t1 Let_def ..
  also have "\<dots> = (if first_text_content (request_blocks cbs) \<noteq> []
                    then first_text_content (request_blocks cbs)
                    else first_carried_text (editor_blocks ed))"
    using find_update_block [of "editor_blocks ed"]
    by (cases "editor_blocks ed") (auto split: option.splits)
  finally show ?thesis .
qed

section \<open>Shape of the slug\<close>

text \<open>
  The slug consists of characters of \<open>[a-z0-9-]\<close>, has no two hyphens in a row, and the
  derivation maps it to itself. The closing \<open>trim\<close> changes nothing, since no white space
  is left when it runs, and so do the setters of the \<open>slug\<close> path.
\<close>

lemma replace_runs_keep: "\<not> p d \<Longrightarrow> replace_runs p (d # cs) = d # replace_runs p cs"
  by (cases cs) simp_all

lemma replace_runs_set: "set (replace_runs p s) \<subseteq> {c \<in> set s. \<not> p c} \<union> {CHR ''-''}"
  by (induction p s rule: replace_runs.induct) auto

lemma replace_runs_id: "\<forall>c \<in> set s. \<not> p c \<Longrightarrow> replace_runs p s = s"
  by (induction p s rule: replace_runs.induct) auto

lemma replace_hyphen_runs_no_double: "no_double_hyphen (replace_runs is_hyphen s)"
proof (induction is_hyphen s rule: replace_runs.induct)
  case 1
  then show ?case by simp
next
  case (2 c)
  then show ?case by simp
next
  case (3 c d cs)
  show ?case
  proof (cases "is_hyphen c")
    case True
    show ?thesis
    proof (cases "is_hyphen d")
      case True
      with \<open>is_hyphen c\<close> 3 show ?thesis by simp
    next
      case False
      then have "replace_runs is_hyphen (d # cs) = d # replace_runs is_hyphen cs"
        by (rule replace_runs_keep)
      with False \<open>is_hyphen c\<close> 3 show ?thesis
        by (simp add: is_hyphen_def)
    qed
  next
    case False
    then have "c \<noteq> CHR ''-''" by (simp add: is_hyphen_def)
    with False 3 show ?thesis
      by (cases "replace_runs is_hyphen (d # cs)") simp_all
  qed
qed

lemma replace_hyphen_runs_id: "no_double_hyphen s \<Longrightarrow> replace_runs is_hyphen s = s"
  by (induction is_hyphen s rule: replace_runs.induct) (auto simp add: is_hyphen_def)

lemma trim_id: "\<forall>c \<in> set s. \<not> is_ws c \<Longrightarrow> trim s = s"
proof -
  assume a: "\<forall>c \<in> set s. \<not> is_ws c"
  then have "dropWhile is_ws s = s"
    by (cases s) simp_all
  moreover from a have "dropWhile is_ws (rev s) = rev s"
    by (cases "rev s") (simp, metis dropWhile.simps(2) list.set_intros(1) set_rev)
  ultimately show ?thesis by (simp add: trim_def)
qed

lemma hyphen_not_ws: "\<not> is_ws CHR ''-''"
  by (simp add: is_ws_def)

lemma hyphen_out: "slug_out_char CHR ''-''"
  by (simp add: slug_out_char_def)

lemma slug_char_not_ws: "slug_char c \<Longrightarrow> \<not> is_ws c \<Longrightarrow> slug_out_char c"
  by (auto simp add: slug_char_def slug_out_char_def is_ws_def Let_def)

lemma slug_out_char_facts:
  assumes "slug_out_char c"
  shows "\<not> is_ws c" "slug_char c" "lower_char c = c"
  using assms
  by (auto simp add: slug_char_def slug_out_char_def is_ws_def lower_char_def Let_def)

lemma slug_body_chars:
  "set (replace_runs is_hyphen (replace_runs is_ws (filter slug_char s))) \<subseteq> {c. slug_out_char c}"
proof -
  have "set (replace_runs is_ws (filter slug_char s)) \<subseteq> {c. slug_out_char c}"
    using replace_runs_set [of is_ws "filter slug_char s"]
    by (auto simp add: hyphen_out slug_char_not_ws)
  then show ?thesis
    using replace_runs_set [of is_hyphen "replace_runs is_ws (filter slug_char s)"]
    by (auto simp add: hyphen_out)
qed

lemma slugify_untrimmed:
  "slugify t = replace_runs is_hyphen (replace_runs is_ws (filter slug_char (toLowerCase t)))"
  unfolding slugify_def
  using slug_body_chars [of "toLowerCase t"]
  by (intro trim_id) (auto dest: slug_out_char_facts(1))

lemma slugify_chars: "list_all slug_out_char (slugify t)"
  using slug_body_chars [of "toLowerCase t"]
  by (auto simp add: slugify_untrimmed list_all_iff)

lemma slugify_no_double_hyphen: "no_double_hyphen (slugify t)"
  by (simp add: slugify_untrimmed replace_hyphen_runs_no_double)

lemma slugify_fixpoint:
  assumes "list_all slug_out_char s" and "no_double_hyphen s"
  shows "slugify s = s"
proof -
  from assms(1) have out: "\<forall>c \<in> set s. slug_out_char c"
    by (simp add: list_all_iff)
  then have "toLowerCase s = s"
    by (simp add: toLowerCase_def slug_out_char_facts(3) map_idI)
  moreover from out have "filter slug_char s = s"
    by (simp add: slug_out_char_facts(2))
  moreover from out have "replace_runs is_ws s = s"
    by (intro replace_runs_id) (auto dest: slug_out_char_facts(1))
  moreover from assms(2) have "replace_runs is_hyphen s = s"
    by (rule replace_hyphen_runs_id)
  ultimately show ?thesis
    by (simp add: slugify_untrimmed)
qed

lemma slug_setter_slugify: "slug_setter (slugify t) = slugify t"
proof -
  have out: "\<forall>c \<in> set (slugify t). slug_out_char c"
    using slugify_chars [of t] by (simp add: list_all_iff)
  then have "toLowerCase (slugify t) = slugify t"
    by (simp add: toLowerCase_def slug_out_char_facts(3) map_idI)
  moreover from out have "trim (slugify t) = slugify t"
    by (intro trim_id) (auto dest: slug_out_char_facts(1))
  ultimately show ?thesis
    by (simp add: slug_setter_def)
qed

lemma slugify_shape:
  "list_all slug_out_char (slugify t) \<and> no_double_hyphen (slugify t)
   \<and> slugify (slugify t) = slugify t"
  by (simp add: slugify_chars slugify_no_double_hyphen slugify_fixpoint)

section \<open>Word counts and excerpt length\<close>

text \<open>
  \<open>ceil_div200\<close> is the ceiling of the two-hundredth part. The update path counts the
  words of the full text; the read-time hook of the model counts the pieces of \<open>split\<close>,
  one more than the runs of white space, which is never zero.
\<close>

lemma ceil_div200_least:
  "w \<le> 200 * ceil_div200 w \<and> (\<forall>n. w \<le> 200 * n \<longrightarrow> ceil_div200 w \<le> n)"
  unfolding ceil_div200_def by (auto; presburger)

lemma length_split_ws_from: "length (split_ws_from cur s) = Suc (ws_runs s)"
  by (induction cur s rule: split_ws_from.induct) simp_all

lemma count_words_runs:
  assumes "s \<noteq> []" and "\<not> is_ws (last s)"
  shows "count_words s = ws_runs s + (if is_ws (hd s) then 0 else 1)"
  using assms
  by (induction s rule: count_words.induct) (auto split: if_splits)

lemma count_words_leading: "is_ws c \<Longrightarrow> count_words (c # s) = count_words s"
  by (cases s) simp_all

lemma count_words_dropWhile: "count_words (dropWhile is_ws s) = count_words s"
  by (induction s) (simp_all add: count_words_leading)

lemma count_words_trailing: "is_ws c \<Longrightarrow> count_words (s @ [c]) = count_words s"
  by (induction s rule: count_words.induct) auto

lemma count_words_drop_trailing:
  "count_words (rev (dropWhile is_ws (rev s))) = count_words s"
  by (induction s rule: rev_induct) (simp_all add: count_words_trailing)

lemma count_words_trim: "count_words (trim s) = count_words s"
  by (simp add: trim_def count_words_drop_trailing count_words_dropWhile)

lemma last_dropWhile_nonempty: "dropWhile P xs \<noteq> [] \<Longrightarrow> last (dropWhile P xs) = last xs"
  by (induction xs) (auto split: if_splits)

lemma trim_ends:
  assumes "trim s \<noteq> []"
  shows "\<not> is_ws (hd (trim s))" and "\<not> is_ws (last (trim s))"
proof -
  let ?u = "dropWhile is_ws s"
  let ?x = "dropWhile is_ws (rev ?u)"
  from assms have x: "?x \<noteq> []"
    by (simp add: trim_def)
  have u: "?u \<noteq> []"
  proof
    assume e: "?u = []"
    have "?x = dropWhile is_ws (rev [])"
      by (simp only: e)
    with x show False by simp
  qed
  have "last (trim s) = hd ?x"
    using x by (simp add: trim_def last_rev)
  with x show "\<not> is_ws (last (trim s))"
    by (simp add: hd_dropWhile)
  have "hd (trim s) = last ?x"
    using x by (simp add: trim_def hd_rev)
  also have "\<dots> = last (rev ?u)"
    using x by (rule last_dropWhile_nonempty)
  also have "\<dots> = hd ?u"
    using u by (simp add: last_rev)
  finally show "\<not> is_ws (hd (trim s))"
    using u by (simp add: hd_dropWhile)
qed

lemma update_wordCount_counts: "update_wordCount s = count_words s"
proof (cases "trim s = []")
  case True
  then have "count_words (trim s) = 0" by simp
  then have "count_words s = 0" by (simp only: count_words_trim)
  with True show ?thesis
    by (simp add: update_wordCount_def)
next
  case False
  from trim_ends [OF False] False
  have "count_words (trim s) = Suc (ws_runs (trim s))"
    by (simp add: count_words_runs)
  with False show ?thesis
    by (simp add: update_wordCount_def split_ws_def length_split_ws_from count_words_trim)
qed

lemma excerpt_shape_length: "length (substring0 200 c @ ''...'') \<le> 203"
  by (simp add: substring0_def)

lemma update_excerpt_length: "length (update_excerpt c) \<le> 203"
  by (simp add: update_excerpt_def substring0_def)

lemma excerpt_hook_result:
  assumes "content_modified m"
  shows "excerpt (excerpt_hook m a) =
           (if hook_excerptText (contentBlocks a) (editorData a) \<noteq> []
            then Some (substring0 200 (hook_excerptText (contentBlocks a) (editorData a)) @ ''...'')
            else excerpt a)"
  using assms by (simp add: excerpt_hook_def Let_def)

lemma readTime_hook_positive:
  assumes "content_modified m" and "readTime_hook m a = Some a'"
  shows "1 \<le> readTime a'"
  using assms
  by (auto simp add: readTime_hook_def split_ws_def length_split_ws_from ceil_div200_def
      split: option.splits)

section \<open>The code at the inputs where it leaves the specification\<close>

text \<open>
  Claim C2 at a failing input. The title \<open>Hello !\<close> gets the slug \<open>hello-\<close>, which ends
  with a hyphen, on the create path; the title \<open>- Hello\<close> gets a slug that starts with
  one on the update path.
\<close>

theorem slug_keeps_outer_hyphen:
  "slugify ''Hello !'' = ''hello-''
   \<and> map_option slug (payload (fst (createArticle empty_db 0 1 7 (plain_request ''Hello !''))))
       = Some (Some ''hello-'')
   \<and> ud_slug (updateArticle_data sample_draft 0 (plain_request ''- Hello'')) = Some ''-hello''"
  by code_simp

text \<open>
  Claim C3 at a failing input. An article created without content, or with an image block
  alone, has no word to read, and its stored read time is 1; the update path gives 0 for
  the same content.
\<close>

theorem create_empty_readTime_one:
  "map_option readTime (payload (fst (createArticle empty_db 0 1 7 hello_request))) = Some 1
   \<and> map_option readTime (payload (fst (createArticle empty_db 0 1 7
         (hello_request\<lparr>rq_contentBlocks := Some [image_block]\<rparr>)))) = Some 1
   \<and> ud_readTime (updateArticle_data sample_draft 0
         (hello_request\<lparr>rq_contentBlocks := Some [image_block]\<rparr>)) = Some 0
   \<and> ud_readTime (updateArticle_data sample_draft 0 (hello_request\<lparr>rq_contentBlocks := Some []\<rparr>))
       = Some 0"
  by code_simp

text \<open>
  Claim C4 at a failing input. An article created without content has an empty excerpt
  candidate, and its stored excerpt is absent, not the empty string; the update path
  stores the empty string.
\<close>

theorem create_empty_excerpt_absent:
  "map_option excerpt (payload (fst (createArticle empty_db 0 1 7 hello_request))) = Some None
   \<and> ud_excerpt (updateArticle_data sample_draft 0 (hello_request\<lparr>rq_contentBlocks := Some []\<rparr>))
       = Some []"
  by code_simp

text \<open>
  Claim C6 at a failing input. Article 2 is a draft without a category; its owner
  publishes it, the request succeeds and the stored article is published.
\<close>

theorem publish_without_category_succeeds:
  "map_option category (findOne_by_author sample_db 2 7) = Some None
   \<and> map_option status (findOne_by_author sample_db 2 7) = Some Draft
   \<and> map_option status (payload (fst (publishArticle sample_db 5 2 7))) = Some Published
   \<and> map_option status (map_of (articles (snd (publishArticle sample_db 5 2 7))) 2) = Some Published"
  by code_simp

text \<open>
  Claim C7 at a failing input. Article 1 is published with publication date 3; its owner
  unpublishes it, the stored article is a draft and still carries the date.
\<close>

theorem unpublish_keeps_publishedAt:
  "map_option publishedAt (findOne_by_author sample_db 1 7) = Some (Some 3)
   \<and> map_option status (payload (fst (unpublishArticle sample_db 5 1 7))) = Some Draft
   \<and> map_option publishedAt (payload (fst (unpublishArticle sample_db 5 1 7))) = Some (Some 3)
   \<and> map_option publishedAt (map_of (articles (snd (unpublishArticle sample_db 5 1 7))) 1)
       = Some (Some 3)"
  by code_simp

end
